theory Spec2Isabelle
  imports Complex_Main "HOL-Library.Sublist" "HOL-Library.Word"
begin

section \<open>Strings of the JavaScript runtime\<close>

text \<open>
  The pages use these operations of the runtime on strings: equality, \<open>startsWith\<close>,
  \<open>includes\<close> (here \<open>includes_str\<close>), \<open>trim\<close>, \<open>toLowerCase\<close> and the interpolation of a
  number. A string of the runtime is a sequence of 16-bit code units. Equality, the prefix
  test and the substring test compare code units one by one and do not depend on what the
  units mean, so they are defined on lists of any element type. The claim detail page uses
  nothing else, and its texts are written as \<open>string\<close>; the worklist page trims and
  lower-cases, and its texts are lists of code units (\<open>js_string\<close>).
\<close>

type_synonym code_unit = "16 word"

type_synonym js_string = "code_unit list"

definition startsWith :: "'a list \<Rightarrow> 'a list \<Rightarrow> bool" where
  "startsWith s p = (take (length p) s = p)"

fun includes_str :: "'a list \<Rightarrow> 'a list \<Rightarrow> bool" where
  "includes_str [] q = (q = [])"
| "includes_str (c # cs) q = (startsWith (c # cs) q \<or> includes_str cs q)"

text \<open>
  What \<open>trim\<close> strips: the white space and line terminators of the language, each one code
  unit. They are TAB, LF, VT, FF, CR (9 to 13), SPACE (32), NO-BREAK SPACE (160), OGHAM
  SPACE MARK (5760), EN QUAD to HAIR SPACE (8192 to 8202), LINE SEPARATOR and PARAGRAPH
  SEPARATOR (8232, 8233), NARROW NO-BREAK SPACE (8239), MEDIUM MATHEMATICAL SPACE (8287),
  IDEOGRAPHIC SPACE (12288) and ZERO WIDTH NO-BREAK SPACE (65279).
\<close>

definition is_space :: "code_unit \<Rightarrow> bool" where
  "is_space c =
     (let n = unat c in
        (9 \<le> n \<and> n \<le> 13) \<or> n = 32 \<or> n = 160 \<or> n = 5760 \<or> (8192 \<le> n \<and> n \<le> 8202)
        \<or> n = 8232 \<or> n = 8233 \<or> n = 8239 \<or> n = 8287 \<or> n = 12288 \<or> n = 65279)"

definition trim :: "js_string \<Rightarrow> js_string" where
  "trim s = rev (dropWhile is_space (rev (dropWhile is_space s)))"

text \<open>
  \<open>toLowerCase\<close> is the case mapping of Unicode, whose tables are not part of the
  repository: the filter below takes it as a parameter. \<open>ascii_toLowerCase\<close> is the
  mapping on texts of ASCII letters, digits and white space, where it turns \<open>A\<close>..\<open>Z\<close> into
  \<open>a\<close>..\<open>z\<close> and changes nothing else; it serves as the instance at concrete inputs.
\<close>

definition ascii_lower :: "code_unit \<Rightarrow> code_unit" where
  "ascii_lower c = (if 65 \<le> unat c \<and> unat c \<le> 90 then c + 32 else c)"

definition ascii_toLowerCase :: "js_string \<Rightarrow> js_string" where
  "ascii_toLowerCase s = map ascii_lower s"

fun show_nat :: "nat \<Rightarrow> string" where
  "show_nat n =
     (if n < 10 then [char_of (48 + n)] else show_nat (n div 10) @ [char_of (48 + n mod 10)])"

declare show_nat.simps [simp del]

definition show_int :: "int \<Rightarrow> string" where
  "show_int i = (if i < 0 then CHR ''-'' # show_nat (nat (- i)) else show_nat (nat i))"

text \<open>
  Truthiness of an optional string, as \<open>x && ...\<close> and \<open>x ? ... : ...\<close> test it: \<open>undefined\<close>,
  \<open>null\<close> and the empty string are falsy, every other string is truthy.
\<close>

definition truthy :: "string option \<Rightarrow> bool" where
  "truthy x = (case x of None \<Rightarrow> False | Some s \<Rightarrow> s \<noteq> [])"

text \<open>What \<open>{x}\<close> puts on the page for an optional string: nothing when it is absent.\<close>

definition jsx_text :: "string option \<Rightarrow> string" where
  "jsx_text x = (case x of None \<Rightarrow> [] | Some s \<Rightarrow> s)"

section \<open>The verification response\<close>

text \<open>
  \<open>interface AuditResult\<close> of the claim detail page. The body of the response is cast to
  this interface without validation, and the page itself tests the fields the interface
  declares as required (\<open>confidence_score != null\<close>, \<open>missing_criteria && ...\<close>), so every
  field is optional here: \<open>None\<close> stands for a key that is missing or \<open>null\<close>. A field that
  is present has the type the interface gives it; \<open>confidence_score\<close> is an integer.
\<close>

record AuditResult =
  verdict :: "string option"
  confidence_score :: "int option"
  reasoning :: "string option"
  missing_criteria :: "string list option"
  suggested_fix :: "string option"
  step_failed :: "string option"
  coding_flags :: "string list option"
  policy_source :: "string option"
  status :: "string option"
  message :: "string option"
  raw_output :: "string option"

text \<open>The response \<open>{}\<close>.\<close>

definition empty_object :: AuditResult where
  "empty_object =
     \<lparr>verdict = None, confidence_score = None, reasoning = None, missing_criteria = None,
      suggested_fix = None, step_failed = None, coding_flags = None, policy_source = None,
      status = None, message = None, raw_output = None\<rparr>"

section \<open>The verification column of the claim detail page\<close>

text \<open>
  The model follows the detail page that is complete; the repository holds a second,
  styled variant of the same page, of which only the status branch is modelled
  (\<open>pipeline_blocks_styled\<close> below). The rendered column is a list of panels; the result
  panel is a list of blocks. One list item of a coding alert carries whether the item is
  marked as denied and its text.
\<close>

datatype flag_li = FlagLi (denied_mark: bool) (li_text: string)

datatype block =
    StatusBox string string
  | CodingAlerts "flag_li list"
  | RawOutput string
  | VerdictBox string "string option" string "string option"
  | Confidence string
  | MissingCriteria "string list"
  | SuggestedAction string

datatype panel =
    ReadyToAudit
  | Processing
  | ErrorBox string
  | Results "block list"

text \<open>\<open>const isDenied = flag.startsWith("DENIED")\<close>.\<close>

definition isDenied :: "string \<Rightarrow> bool" where
  "isDenied flag = startsWith flag ''DENIED''"

text \<open>
  \<open>audit.coding_flags && audit.coding_flags.length > 0 && (...)\<close>, with the list item
  given as a parameter: the two branches that show coding alerts build the item differently.
\<close>

definition coding_alerts :: "(string \<Rightarrow> flag_li) \<Rightarrow> AuditResult \<Rightarrow> block list" where
  "coding_alerts li a =
     (case coding_flags a of
        None \<Rightarrow> []
      | Some fs \<Rightarrow> if length fs > 0 then [CodingAlerts (map li fs)] else [])"

text \<open>
  The branch for \<open>audit.status === "warning" || audit.status === "error"\<close>: the status box,
  then the coding alerts, each item showing \<open>{flag}\<close> alone.
\<close>

definition pipeline_blocks :: "AuditResult \<Rightarrow> block list" where
  "pipeline_blocks a =
     StatusBox (jsx_text (status a)) (jsx_text (message a))
     # coding_alerts (\<lambda>flag. FlagLi False flag) a"

text \<open>The branch for a truthy \<open>audit.raw_output\<close>.\<close>

definition raw_blocks :: "AuditResult \<Rightarrow> block list" where
  "raw_blocks a = [RawOutput (jsx_text (raw_output a))]"

text \<open>
  The last branch: the verdict box, then one guarded section after another. A coding
  alert item shows \<open>[DENIED]\<close> before the flag when \<open>isDenied\<close> holds.
\<close>

definition verdict_blocks :: "AuditResult \<Rightarrow> block list" where
  "verdict_blocks a =
     [VerdictBox (jsx_text (verdict a))
        (if truthy (step_failed a) then step_failed a else None)
        (jsx_text (reasoning a))
        (if truthy (policy_source a) then policy_source a else None)]
     @ (case confidence_score a of
          None \<Rightarrow> []
        | Some n \<Rightarrow> [Confidence (show_int n @ ''%'')])
     @ coding_alerts (\<lambda>flag. FlagLi (isDenied flag) flag) a
     @ (case missing_criteria a of
          None \<Rightarrow> []
        | Some ms \<Rightarrow> if length ms > 0 then [MissingCriteria ms] else [])
     @ (if truthy (suggested_fix a) then [SuggestedAction (jsx_text (suggested_fix a))] else [])"

text \<open>The three branches of the conditional chain, in the order the page tests them.\<close>

datatype variant = PipelineWarningError | RawFallback | StructuredVerdict

definition audit_variant :: "AuditResult \<Rightarrow> variant" where
  "audit_variant a =
     (if status a = Some ''warning'' \<or> status a = Some ''error'' then PipelineWarningError
      else if truthy (raw_output a) then RawFallback
      else StructuredVerdict)"

definition results :: "AuditResult \<Rightarrow> block list" where
  "results a =
     (if status a = Some ''warning'' \<or> status a = Some ''error'' then pipeline_blocks a
      else if truthy (raw_output a) then raw_blocks a
      else verdict_blocks a)"

text \<open>
  The same branch in the styled variant of the page (the second detail-page file): there
  the list item takes its colours from \<open>isDenied\<close>, as in the verdict branch.
\<close>

definition pipeline_blocks_styled :: "AuditResult \<Rightarrow> block list" where
  "pipeline_blocks_styled a =
     StatusBox (jsx_text (status a)) (jsx_text (message a))
     # coding_alerts (\<lambda>flag. FlagLi (isDenied flag) flag) a"

section \<open>The response body before it is typed\<close>

text \<open>
  \<open>const data: AuditResult = await res.json()\<close> gives the parsed body its type without a
  check, so the column can meet any value. Here is the body as parsed: a value that is not
  an object, or an object whose fields hold \<open>null\<close>, booleans, numbers, strings and arrays
  of these. An object nested inside a field is outside this model. Numbers are integers.
\<close>

datatype jvalue = JNull | JBool bool | JNum int | JStr string | JArr "jvalue list"

datatype body = Plain jvalue | Object "(string \<times> jvalue) list"





















section \<open>The audit state of the claim detail page\<close>

text \<open>
  The three state cells of \<open>ClaimDetailPage\<close> that the verification column reads, with the
  route parameter \<open>id\<close> (here \<open>id_param\<close>) the page was rendered for. The column is part
  of the page once the claim has loaded; the cells \<open>claim\<close>, \<open>loading\<close> and \<open>error\<close> that
  decide this are not read or written by anything below.
\<close>

record DetailState =
  id_param :: string
  audit :: "AuditResult option"
  auditing :: bool
  auditError :: "string option"

definition ClaimDetailPage_init :: "string \<Rightarrow> DetailState" where
  "ClaimDetailPage_init i = \<lparr>id_param = i, audit = None, auditing = False, auditError = None\<rparr>"

text \<open>
  What the awaited part of \<open>runAudit\<close> can come back with: \<open>fetch\<close> rejects, or it gives a
  response with a status code whose \<open>json()\<close> either rejects or gives the body. A thrown
  value is an \<open>Error\<close> with its message or something else; \<open>res.ok\<close> is the status range
  200 to 299.
\<close>

datatype thrown = ErrorObject string | OtherValue

datatype fetch_outcome = FetchRejected thrown | FetchResponse nat "thrown + AuditResult"

definition res_ok :: "nat \<Rightarrow> bool" where
  "res_ok code = (200 \<le> code \<and> code \<le> 299)"

text \<open>\<open>err instanceof Error ? err.message : "Audit failed"\<close>.\<close>

definition catch_message :: "thrown \<Rightarrow> string" where
  "catch_message err = (case err of ErrorObject m \<Rightarrow> m | OtherValue \<Rightarrow> ''Audit failed'')"

text \<open>\<open>runAudit\<close> up to its \<open>await\<close>: the three setters, batched into one update.\<close>

definition runAudit_start :: "DetailState \<Rightarrow> DetailState" where
  "runAudit_start st = st\<lparr>auditing := True, auditError := None, audit := None\<rparr>"

text \<open>
  \<open>runAudit\<close> after its \<open>await\<close>, applied to the state of that moment: the \<open>try\<close> body, the
  \<open>catch\<close> and the \<open>finally\<close>.
\<close>

definition runAudit_finish :: "fetch_outcome \<Rightarrow> DetailState \<Rightarrow> DetailState" where
  "runAudit_finish out st =
     (case out of
        FetchRejected err \<Rightarrow> st\<lparr>auditError := Some (catch_message err), auditing := False\<rparr>
      | FetchResponse code body \<Rightarrow>
          if \<not> res_ok code
          then st\<lparr>auditError :=
                    Some (catch_message
                            (ErrorObject (''Verification failed ('' @ show_nat code @ '')''))),
                  auditing := False\<rparr>
          else (case body of
                  Inl err \<Rightarrow> st\<lparr>auditError := Some (catch_message err), auditing := False\<rparr>
                | Inr data \<Rightarrow> st\<lparr>audit := Some data, auditing := False\<rparr>))"

text \<open>
  A change of the route parameter under the mounted page: the effect keyed on \<open>[id]\<close> loads
  the claim again and touches none of the three audit cells. Neither page offers a way to
  it (see the section on pages below); the events of one page include it all the same, so
  that what holds of every run of one page holds with or without it.
\<close>

definition params_changed :: "string \<Rightarrow> DetailState \<Rightarrow> DetailState" where
  "params_changed j st = st\<lparr>id_param := j\<rparr>"

text \<open>The four guarded panels of the column, in the order of the markup.\<close>

definition verification_column :: "DetailState \<Rightarrow> panel list" where
  "verification_column st =
     (if audit st = None \<and> \<not> auditing st \<and> \<not> truthy (auditError st) then [ReadyToAudit] else [])
     @ (if auditing st then [Processing] else [])
     @ (if truthy (auditError st) then [ErrorBox (jsx_text (auditError st))] else [])
     @ (case audit st of
          None \<Rightarrow> []
        | Some a \<Rightarrow> if \<not> auditing st then [Results (results a)] else [])"

text \<open>
  The events of the page, on a configuration of the state and the number of requests in
  flight. The button that calls \<open>runAudit\<close> exists only inside the first panel, so a click
  is possible only where that panel is rendered; a request can settle only when one is in
  flight.
\<close>

datatype event = Click | Settle fetch_outcome | Navigate string

fun step :: "event \<Rightarrow> DetailState \<times> nat \<Rightarrow> (DetailState \<times> nat) option" where
  "step Click (st, n) =
     (if ReadyToAudit \<in> set (verification_column st) then Some (runAudit_start st, Suc n)
      else None)"
| "step (Settle out) (st, n) =
     (case n of 0 \<Rightarrow> None | Suc m \<Rightarrow> Some (runAudit_finish out st, m))"
| "step (Navigate j) (st, n) = Some (params_changed j st, n)"

fun run :: "event list \<Rightarrow> DetailState \<times> nat \<Rightarrow> (DetailState \<times> nat) option" where
  "run [] c = Some c"
| "run (e # es) c = (case step e c of None \<Rightarrow> None | Some c' \<Rightarrow> run es c')"

text \<open>
  The invariant of the events: with nothing in flight the page is not auditing and holds at
  most one of a result and an error; with one request in flight it is auditing and holds
  neither. No other number of requests in flight occurs.
\<close>

definition audit_inv :: "DetailState \<times> nat \<Rightarrow> bool" where
  "audit_inv c =
     (case c of (st, n) \<Rightarrow>
        (n = 0 \<and> \<not> auditing st \<and> (audit st = None \<or> auditError st = None))
        \<or> (n = 1 \<and> auditing st \<and> audit st = None \<and> auditError st = None))"

section \<open>Pages and the requests in flight\<close>

text \<open>
  The way from one claim to another that the two pages offer: the link to \<open>/\<close> on the
  detail page, then a row of the worklist, which pushes \<open>/claim/id\<close>. The first takes the
  detail page off the screen, with its state; the second puts a new detail page on it,
  whose state is the initial one. A request stays in flight across both. Pages are
  numbered in the order they are put on the screen; a request remembers the page that
  issued it and the claim its address names. When it comes back, the setters it calls are
  those of the page that issued it: they change the state of that page if it is still on
  the screen and nothing otherwise.
\<close>

record request =
  req_page :: nat
  req_claim :: string

datatype screen = Worklist | Detail nat DetailState

record app =
  current :: screen
  pages :: nat
  inflight :: "request list"

definition app_init :: app where
  "app_init = \<lparr>current = Worklist, pages = 0, inflight = []\<rparr>"

datatype app_event = OpenClaim string | Return | RunVerification | Arrive nat fetch_outcome

fun app_step :: "app_event \<Rightarrow> app \<Rightarrow> app option" where
  "app_step (OpenClaim i) s =
     (case current s of
        Worklist \<Rightarrow>
          Some (s\<lparr>current := Detail (Suc (pages s)) (ClaimDetailPage_init i),
                  pages := Suc (pages s)\<rparr>)
      | Detail k st \<Rightarrow> None)"
| "app_step Return s =
     (case current s of
        Worklist \<Rightarrow> None
      | Detail k st \<Rightarrow> Some (s\<lparr>current := Worklist\<rparr>))"
| "app_step RunVerification s =
     (case current s of
        Worklist \<Rightarrow> None
      | Detail k st \<Rightarrow>
          if ReadyToAudit \<in> set (verification_column st)
          then Some (s\<lparr>current := Detail k (runAudit_start st),
                       inflight := inflight s @ [\<lparr>req_page = k, req_claim = id_param st\<rparr>]\<rparr>)
          else None)"
| "app_step (Arrive n out) s =
     (if n < length (inflight s)
      then Some (case current s of
                   Worklist \<Rightarrow> s\<lparr>inflight := take n (inflight s) @ drop (Suc n) (inflight s)\<rparr>
                 | Detail k st \<Rightarrow>
                     if req_page (inflight s ! n) = k
                     then s\<lparr>current := Detail k (runAudit_finish out st),
                            inflight := take n (inflight s) @ drop (Suc n) (inflight s)\<rparr>
                     else s\<lparr>inflight := take n (inflight s) @ drop (Suc n) (inflight s)\<rparr>)
      else None)"

fun app_run :: "app_event list \<Rightarrow> app \<Rightarrow> app option" where
  "app_run [] s = Some s"
| "app_run (e # es) s = (case app_step e s of None \<Rightarrow> None | Some s' \<Rightarrow> app_run es s')"

text \<open>
  The invariant of these events: no request comes from a page later than the last one put
  on the screen; the page on the screen is the last one; and a request of the page on the
  screen names the claim of that page.
\<close>

definition app_inv :: "app \<Rightarrow> bool" where
  "app_inv s =
     (list_all (\<lambda>r. req_page r \<le> pages s) (inflight s)
      \<and> (case current s of
            Worklist \<Rightarrow> True
          | Detail k st \<Rightarrow>
              k = pages s
              \<and> list_all (\<lambda>r. req_page r = k \<longrightarrow> req_claim r = id_param st) (inflight s)))"

section \<open>The worklist filter\<close>

text \<open>
  \<open>interface Claim\<close> of the worklist page; \<open>id\<close> and \<open>status\<close> are \<open>id_claim\<close> and
  \<open>status_claim\<close> here.
\<close>

record Claim =
  id_claim :: int
  patient_id :: js_string
  payer_name :: "js_string option"
  date_of_service :: "js_string option"
  claim_amount :: "rat option"
  status_claim :: js_string

text \<open>
  The effect of \<open>Home\<close> keyed on \<open>[searchQuery, claims]\<close>: the value it stores in
  \<open>filteredClaims\<close>, given the runtime's \<open>toLowerCase\<close>.
\<close>

definition filteredClaims ::
  "(js_string \<Rightarrow> js_string) \<Rightarrow> Claim list \<Rightarrow> js_string \<Rightarrow> Claim list" where
  "filteredClaims toLowerCase claims searchQuery =
     (let query = trim (toLowerCase searchQuery) in
      if query = [] then claims
      else filter
             (\<lambda>claim. includes_str (toLowerCase (patient_id claim)) query
                \<or> (case payer_name claim of
                     None \<Rightarrow> False
                   | Some p \<Rightarrow> p \<noteq> [] \<and> includes_str (toLowerCase p) query))
             claims)"

section \<open>Properties of the result panel\<close>

lemma startsWith_iff: "startsWith s p \<longleftrightarrow> (\<exists>r. s = p @ r)"
proof
  assume "startsWith s p"
  then have "take (length p) s = p" by (simp add: startsWith_def)
  then have "s = p @ drop (length p) s" by (metis append_take_drop_id)
  then show "\<exists>r. s = p @ r" ..
next
  assume "\<exists>r. s = p @ r"
  then show "startsWith s p" by (auto simp: startsWith_def)
qed

lemma coding_alerts_set:
  "b \<in> set (coding_alerts li a) \<longleftrightarrow>
     (\<exists>fs. coding_flags a = Some fs \<and> fs \<noteq> [] \<and> b = CodingAlerts (map li fs))"
  by (cases "coding_flags a") (auto simp: coding_alerts_def)

lemma Confidence_in_verdict_blocks:
  "Confidence t \<in> set (verdict_blocks a) \<longleftrightarrow>
     (\<exists>n. confidence_score a = Some n \<and> t = show_int n @ ''%'')"
  by (cases "confidence_score a"; cases "missing_criteria a")
     (auto simp: verdict_blocks_def coding_alerts_set)

lemma SuggestedAction_in_verdict_blocks:
  "SuggestedAction t \<in> set (verdict_blocks a) \<longleftrightarrow> (suggested_fix a = Some t \<and> t \<noteq> [])"
  by (auto simp: verdict_blocks_def coding_alerts_set truthy_def jsx_text_def split: option.splits)

lemma MissingCriteria_in_verdict_blocks:
  "MissingCriteria ms \<in> set (verdict_blocks a) \<longleftrightarrow> (missing_criteria a = Some ms \<and> ms \<noteq> [])"
  by (auto simp: verdict_blocks_def coding_alerts_set split: option.splits)

lemma CodingAlerts_in_verdict_blocks:
  "CodingAlerts ls \<in> set (verdict_blocks a) \<longleftrightarrow>
     (\<exists>fs. coding_flags a = Some fs \<and> fs \<noteq> [] \<and> ls = map (\<lambda>f. FlagLi (isDenied f) f) fs)"
  by (auto simp: verdict_blocks_def coding_alerts_set split: option.splits)


lemma RawOutput_notin_verdict_blocks: "RawOutput t \<notin> set (verdict_blocks a)"
  by (auto simp: verdict_blocks_def coding_alerts_set split: option.splits)

lemma RawOutput_notin_pipeline_blocks: "RawOutput t \<notin> set (pipeline_blocks a)"
  by (auto simp: pipeline_blocks_def coding_alerts_set)

text \<open>
  C1. A response whose \<open>status\<close> is \<open>"warning"\<close> or \<open>"error"\<close> takes the first branch of the
  chain and shows the status box, whatever its \<open>verdict\<close> and its \<open>raw_output\<close> are: the
  status test comes before the raw-output test and before the default.
\<close>

theorem status_wins:
  assumes "status a = Some ''warning'' \<or> status a = Some ''error''"
  shows "audit_variant (a\<lparr>verdict := v, raw_output := r\<rparr>) = PipelineWarningError
         \<and> results (a\<lparr>verdict := v, raw_output := r\<rparr>)
             = StatusBox (jsx_text (status a)) (jsx_text (message a))
               # coding_alerts (\<lambda>flag. FlagLi False flag) a"
  using assms by (auto simp: audit_variant_def results_def pipeline_blocks_def coding_alerts_def)

theorem status_wins_witness:
  "audit_variant (empty_object\<lparr>status := Some ''error'', verdict := Some ''APPROVED'',
                                raw_output := Some ''text''\<rparr>) = PipelineWarningError
   \<and> results (empty_object\<lparr>status := Some ''error'', verdict := Some ''APPROVED'',
                             raw_output := Some ''text''\<rparr>) = [StatusBox ''error'' []]"
proof -
  have h: "status (empty_object\<lparr>status := Some ''error''\<rparr>) = Some ''warning''
           \<or> status (empty_object\<lparr>status := Some ''error''\<rparr>) = Some ''error''"
    by simp
  show ?thesis
    using status_wins [OF h, where v = "Some ''APPROVED''" and r = "Some ''text''"]
    by (simp add: empty_object_def jsx_text_def coding_alerts_def)
qed

text \<open>
  C3. In the status branch every coding flag is one item of a flat list, in order, but the
  item is never marked as denied: the response \<open>{status: "warning", message: "timeout",
  coding_flags: ["DENIED:99213 mismatch"]}\<close> gives an unmarked item for a flag that
  \<open>isDenied\<close> accepts. The styled variant of the same branch marks it.
\<close>

theorem pipeline_flags_unmarked:
  "results (empty_object\<lparr>status := Some ''warning'', message := Some ''timeout'',
                          coding_flags := Some [''DENIED:99213 mismatch'']\<rparr>)
     = [StatusBox ''warning'' ''timeout'', CodingAlerts [FlagLi False ''DENIED:99213 mismatch'']]
   \<and> isDenied ''DENIED:99213 mismatch''
   \<and> pipeline_blocks_styled (empty_object\<lparr>status := Some ''warning'', message := Some ''timeout'',
                          coding_flags := Some [''DENIED:99213 mismatch'']\<rparr>)
     = [StatusBox ''warning'' ''timeout'', CodingAlerts [FlagLi True ''DENIED:99213 mismatch'']]"
  by (simp add: results_def pipeline_blocks_def pipeline_blocks_styled_def coding_alerts_def
      empty_object_def jsx_text_def isDenied_def startsWith_def)

text \<open>
  C4. A response whose \<open>status\<close> is neither \<open>"warning"\<close> nor \<open>"error"\<close> and whose
  \<open>raw_output\<close> is a non-empty string takes the raw branch, which shows that string and
  nothing else; a response whose \<open>raw_output\<close> is absent or empty never takes it, and no
  raw-output block is rendered for it.
\<close>

theorem raw_fallback:
  "(status a \<noteq> Some ''warning'' \<and> status a \<noteq> Some ''error'' \<and> raw_output a = Some s \<and> s \<noteq> []
      \<longrightarrow> audit_variant a = RawFallback \<and> results a = [RawOutput s])
   \<and> (raw_output a = None \<or> raw_output a = Some []
      \<longrightarrow> audit_variant a \<noteq> RawFallback \<and> (\<forall>t. RawOutput t \<notin> set (results a)))"
  by (auto simp: audit_variant_def results_def truthy_def raw_blocks_def jsx_text_def
      RawOutput_notin_verdict_blocks RawOutput_notin_pipeline_blocks)

theorem raw_fallback_witness:
  "(audit_variant (empty_object\<lparr>raw_output := Some ''LLM parse failed''\<rparr>) = RawFallback
    \<and> results (empty_object\<lparr>raw_output := Some ''LLM parse failed''\<rparr>)
        = [RawOutput ''LLM parse failed''])
   \<and> (audit_variant (empty_object\<lparr>verdict := Some ''DENIED'', raw_output := Some []\<rparr>) \<noteq> RawFallback
      \<and> (\<forall>t. RawOutput t \<notin> set (results (empty_object\<lparr>verdict := Some ''DENIED'',
                                                          raw_output := Some []\<rparr>))))"
proof -
  let ?a = "empty_object\<lparr>raw_output := Some ''LLM parse failed''\<rparr>"
  let ?b = "empty_object\<lparr>verdict := Some ''DENIED'', raw_output := Some []\<rparr>"
  have h1: "status ?a \<noteq> Some ''warning'' \<and> status ?a \<noteq> Some ''error''
            \<and> raw_output ?a = Some ''LLM parse failed'' \<and> ''LLM parse failed'' \<noteq> []"
    by (simp add: empty_object_def)
  have h2: "raw_output ?b = None \<or> raw_output ?b = Some []"
    by simp
  from raw_fallback [of ?a "''LLM parse failed''"] h1
  have c1: "audit_variant ?a = RawFallback \<and> results ?a = [RawOutput ''LLM parse failed'']"
    by blast
  from raw_fallback [of ?b "[]"] h2
  have c2: "audit_variant ?b \<noteq> RawFallback \<and> (\<forall>t. RawOutput t \<notin> set (results ?b))"
    by blast
  from c1 c2 show ?thesis by blast
qed

text \<open>
  C5. \<open>isDenied\<close> is the literal, case-sensitive prefix test: it holds of exactly the
  strings that begin with the six characters \<open>DENIED\<close>. \<open>"DENIED - mismatch"\<close> passes,
  \<open>"Denied - mismatch"\<close> does not, and the verdict branch marks each flag by it.
\<close>

theorem denied_is_literal_prefix:
  "(isDenied s \<longleftrightarrow> (\<exists>r. s = ''DENIED'' @ r))
   \<and> isDenied ''DENIED - mismatch'' \<and> \<not> isDenied ''Denied - mismatch''
   \<and> (coding_flags a = Some fs \<and> fs \<noteq> []
        \<longrightarrow> CodingAlerts (map (\<lambda>flag. FlagLi (isDenied flag) flag) fs) \<in> set (verdict_blocks a))"
  by (simp add: isDenied_def startsWith_iff CodingAlerts_in_verdict_blocks)

theorem denied_is_literal_prefix_witness:
  "CodingAlerts [FlagLi True ''DENIED - mismatch'', FlagLi False ''Denied - mismatch'']
     \<in> set (verdict_blocks
               (empty_object\<lparr>coding_flags := Some [''DENIED - mismatch'', ''Denied - mismatch'']\<rparr>))"
proof -
  let ?fs = "[''DENIED - mismatch'', ''Denied - mismatch'']"
  let ?a = "empty_object\<lparr>coding_flags := Some ?fs\<rparr>"
  have h: "coding_flags ?a = Some ?fs \<and> ?fs \<noteq> []"
    by simp
  note g = denied_is_literal_prefix [where a = ?a and fs = ?fs]
  have m: "CodingAlerts (map (\<lambda>flag. FlagLi (isDenied flag) flag) ?fs) \<in> set (verdict_blocks ?a)"
    using g [THEN conjunct2, THEN conjunct2, THEN conjunct2] h by (rule mp)
  have d: "isDenied ''DENIED - mismatch''" "\<not> isDenied ''Denied - mismatch''"
    using g [THEN conjunct2, THEN conjunct1] g [THEN conjunct2, THEN conjunct2, THEN conjunct1]
    by simp_all
  from m d show ?thesis by simp
qed

lemma results_structured:
  "audit_variant a = StructuredVerdict \<Longrightarrow> results a = verdict_blocks a"
  by (auto simp: audit_variant_def results_def split: if_splits)

lemma show_int_0: "show_int 0 = ''0''"
  by code_simp

















text \<open>
  The guard on \<open>suggested_fix\<close> is truthiness: a string of white space only is not empty
  and is shown.
\<close>

lemma whitespace_suggested_fix_is_shown:
  "results (empty_object\<lparr>suggested_fix := Some ''  ''\<rparr>)
     = [VerdictBox [] None [] None, SuggestedAction ''  '']"
  by (simp add: results_def verdict_blocks_def coding_alerts_def empty_object_def truthy_def
      jsx_text_def)

text \<open>
  C10. In the verdict branch the confidence section is shown for every score that is
  present, \<open>0\<close> included (as \<open>0%\<close>), while the suggested-action section needs a non-empty
  string and the coding-alert and missing-criteria sections need non-empty lists.
\<close>

theorem display_guards_asymmetric:
  assumes "audit_variant a = StructuredVerdict"
  shows "(confidence_score a = Some n \<longrightarrow> Confidence (show_int n @ ''%'') \<in> set (results a))
   \<and> (confidence_score a = Some 0 \<longrightarrow> Confidence ''0%'' \<in> set (results a))
   \<and> (suggested_fix a = Some [] \<longrightarrow> (\<forall>t. SuggestedAction t \<notin> set (results a)))
   \<and> (coding_flags a = Some [] \<longrightarrow> (\<forall>ls. CodingAlerts ls \<notin> set (results a)))
   \<and> (missing_criteria a = Some [] \<longrightarrow> (\<forall>ms. MissingCriteria ms \<notin> set (results a)))
   \<and> (SuggestedAction t \<in> set (results a) \<longleftrightarrow> suggested_fix a = Some t \<and> t \<noteq> [])
   \<and> (MissingCriteria ms \<in> set (results a) \<longleftrightarrow> missing_criteria a = Some ms \<and> ms \<noteq> [])
   \<and> (CodingAlerts ls \<in> set (results a) \<longleftrightarrow>
        (\<exists>fs. coding_flags a = Some fs \<and> fs \<noteq> []
              \<and> ls = map (\<lambda>flag. FlagLi (isDenied flag) flag) fs))"
  unfolding results_structured [OF assms]
  by (simp add: Confidence_in_verdict_blocks SuggestedAction_in_verdict_blocks
      MissingCriteria_in_verdict_blocks CodingAlerts_in_verdict_blocks show_int_0)

theorem display_guards_asymmetric_witness:
  "results (empty_object\<lparr>confidence_score := Some 0, suggested_fix := Some [],
                          coding_flags := Some [], missing_criteria := Some []\<rparr>)
     = [VerdictBox [] None [] None, Confidence ''0%'']
   \<and> Confidence ''0%'' \<in> set (results (empty_object\<lparr>confidence_score := Some 0,
         suggested_fix := Some [], coding_flags := Some [], missing_criteria := Some []\<rparr>))
   \<and> (\<forall>t. SuggestedAction t \<notin> set (results (empty_object\<lparr>confidence_score := Some 0,
         suggested_fix := Some [], coding_flags := Some [], missing_criteria := Some []\<rparr>)))"
proof -
  let ?a = "empty_object\<lparr>confidence_score := Some 0, suggested_fix := Some [],
                          coding_flags := Some [], missing_criteria := Some []\<rparr>"
  have h: "audit_variant ?a = StructuredVerdict"
    by (simp add: audit_variant_def empty_object_def truthy_def)
  have c: "confidence_score ?a = Some 0" and f: "suggested_fix ?a = Some []"
    by simp_all
  have r: "results ?a = [VerdictBox [] None [] None, Confidence ''0%'']"
    by (simp add: results_def verdict_blocks_def coding_alerts_def empty_object_def truthy_def
        jsx_text_def show_int_0)
  note g = display_guards_asymmetric [OF h, where n = 0]
  have k1: "Confidence ''0%'' \<in> set (results ?a)"
    using g [THEN conjunct2, THEN conjunct1] c by (rule mp)
  have k2: "\<forall>t. SuggestedAction t \<notin> set (results ?a)"
    using g [THEN conjunct2, THEN conjunct2, THEN conjunct1] f by (rule mp)
  show ?thesis
    by (intro conjI) (rule r k1 k2)+
qed

section \<open>Properties of the audit state\<close>

lemma audit_inv_init: "audit_inv (ClaimDetailPage_init i, 0)"
  by (simp add: audit_inv_def ClaimDetailPage_init_def)

lemma ReadyToAudit_rendered:
  "ReadyToAudit \<in> set (verification_column st) \<longleftrightarrow>
     (audit st = None \<and> \<not> auditing st \<and> \<not> truthy (auditError st))"
  by (cases "audit st") (auto simp: verification_column_def)

lemma runAudit_finish_cells:
  "auditing (runAudit_finish out st) = False
   \<and> ((audit (runAudit_finish out st) = audit st \<and> auditError (runAudit_finish out st) \<noteq> None)
      \<or> (audit (runAudit_finish out st) \<noteq> None \<and> auditError (runAudit_finish out st) = auditError st))"
  by (cases out) (auto simp: runAudit_finish_def split: sum.splits)

lemma audit_inv_step:
  assumes "audit_inv c" and "step e c = Some c'"
  shows "audit_inv c'"
proof (cases c)
  case (Pair st n)
  show ?thesis
  proof (cases e)
    case Click
    with Pair assms show ?thesis
      by (auto simp: audit_inv_def ReadyToAudit_rendered runAudit_start_def split: if_splits)
  next
    case (Settle out)
    with Pair assms obtain m where n: "n = Suc m" and c': "c' = (runAudit_finish out st, m)"
      by (auto split: nat.splits)
    from assms(1) Pair n have pre: "m = 0" "auditing st" "audit st = None" "auditError st = None"
      by (auto simp: audit_inv_def)
    with runAudit_finish_cells [of out st] c' show ?thesis
      by (auto simp: audit_inv_def)
  next
    case (Navigate j)
    with Pair assms show ?thesis
      by (auto simp: audit_inv_def params_changed_def)
  qed
qed

lemma audit_inv_run:
  "audit_inv c \<Longrightarrow> run es c = Some c' \<Longrightarrow> audit_inv c'"
proof (induction es arbitrary: c)
  case Nil
  then show ?case by simp
next
  case (Cons e es)
  then show ?case
    by (auto split: option.splits dest: audit_inv_step)
qed

lemma column_of_inv:
  assumes "audit_inv (st, n)"
  shows "verification_column st =
           (if auditing st then [Processing]
            else if truthy (auditError st) then [ErrorBox (jsx_text (auditError st))]
            else case audit st of None \<Rightarrow> [ReadyToAudit] | Some a \<Rightarrow> [Results (results a)])"
  using assms
  by (cases "audit st") (auto simp: audit_inv_def verification_column_def truthy_def)

lemma results_shape:
  "(audit_variant a = PipelineWarningError \<and> (\<exists>s m bs. results a = StatusBox s m # bs))
   \<or> (audit_variant a = RawFallback \<and> (\<exists>t. results a = [RawOutput t]))
   \<or> (audit_variant a = StructuredVerdict \<and> (\<exists>v f r p bs. results a = VerdictBox v f r p # bs))"
  by (simp add: audit_variant_def results_def pipeline_blocks_def raw_blocks_def verdict_blocks_def)

text \<open>
  C6. From every state, the one with a result or an error on display included, the part of
  \<open>runAudit\<close> that runs before the request is awaited leaves the page auditing, with no
  result and no error, and the column shows the processing panel and nothing else.
\<close>

theorem trigger_clears_result_and_error:
  "auditing (runAudit_start st) \<and> audit (runAudit_start st) = None
   \<and> auditError (runAudit_start st) = None
   \<and> verification_column (runAudit_start st) = [Processing]
   \<and> id_param (runAudit_start st) = id_param st"
  by (simp add: runAudit_start_def verification_column_def truthy_def)

lemma id_param_runAudit_start: "id_param (runAudit_start st) = id_param st"
  by (simp add: runAudit_start_def)

lemma id_param_runAudit_finish: "id_param (runAudit_finish out st) = id_param st"
  by (cases out) (auto simp: runAudit_finish_def split: sum.splits)

lemma list_all_remove_nth:
  "list_all P xs \<Longrightarrow> list_all P (take n xs @ drop (Suc n) xs)"
  by (auto simp: list_all_iff dest: in_set_takeD in_set_dropD)

lemma app_inv_init: "app_inv app_init"
  by (simp add: app_inv_def app_init_def)

lemma app_inv_step:
  assumes "app_inv s" and "app_step e s = Some s'"
  shows "app_inv s'"
proof (cases e)
  case (OpenClaim i)
  with assms show ?thesis
    by (cases "current s") (fastforce simp: app_inv_def list_all_iff)+
next
  case Return
  with assms show ?thesis
    by (cases "current s") (auto simp: app_inv_def)
next
  case RunVerification
  with assms show ?thesis
    by (cases "current s")
       (auto simp: app_inv_def list_all_iff id_param_runAudit_start split: if_splits)
next
  case (Arrive n out)
  with assms have n: "n < length (inflight s)"
    by (auto split: if_splits)
  from assms(1) have a: "list_all (\<lambda>r. req_page r \<le> pages s) (inflight s)"
    by (simp add: app_inv_def)
  show ?thesis
  proof (cases "current s")
    case Worklist
    with Arrive assms n list_all_remove_nth [OF a] show ?thesis
      by (auto simp: app_inv_def)
  next
    case (Detail k st)
    with assms(1) have b: "k = pages s"
      "list_all (\<lambda>r. req_page r = k \<longrightarrow> req_claim r = id_param st) (inflight s)"
      by (auto simp: app_inv_def)
    from Arrive Detail assms(2) n b(1) list_all_remove_nth [OF a]
      list_all_remove_nth [OF b(2)]
    show ?thesis
      by (auto simp: app_inv_def id_param_runAudit_finish split: if_splits)
  qed
qed

lemma app_inv_run: "app_inv s \<Longrightarrow> app_run es s = Some s' \<Longrightarrow> app_inv s'"
proof (induction es arbitrary: s)
  case Nil
  then show ?case by simp
next
  case (Cons e es)
  then show ?case
    by (auto split: option.splits dest: app_inv_step)
qed

text \<open>
  C7. On every configuration that openings of claims, returns to the worklist, runs of the
  verification and arrivals of responses reach: when a response arrives for a request
  whose claim is not the claim of the page on the screen, nothing on the screen changes
  (the request is only taken off the list of those in flight); and when the arrival does
  change the page on the screen, the request was for the claim of that page.
\<close>

theorem late_response_not_shown_under_other_claim:
  assumes "app_run es app_init = Some s"
    and "n < length (inflight s)"
    and "current s = Detail k st"
  shows "(req_claim (inflight s ! n) \<noteq> id_param st
            \<longrightarrow> app_step (Arrive n out) s
                  = Some (s\<lparr>inflight := take n (inflight s) @ drop (Suc n) (inflight s)\<rparr>))
   \<and> (\<forall>s'. app_step (Arrive n out) s = Some s' \<and> current s' \<noteq> current s
          \<longrightarrow> req_claim (inflight s ! n) = id_param st
              \<and> current s' = Detail k (runAudit_finish out st))"
proof -
  have "app_inv s"
    using app_inv_run [OF app_inv_init assms(1)] .
  with assms(3) have
    "list_all (\<lambda>r. req_page r = k \<longrightarrow> req_claim r = id_param st) (inflight s)"
    by (auto simp: app_inv_def)
  with assms(2) have m: "req_page (inflight s ! n) = k \<longrightarrow> req_claim (inflight s ! n) = id_param st"
    by (simp add: list_all_length)
  from assms(2,3) m show ?thesis
    by auto
qed

theorem late_response_not_shown_under_other_claim_witness:
  "app_run [OpenClaim ''A'', RunVerification, Return, OpenClaim ''B''] app_init
     = Some \<lparr>current = Detail 2 (ClaimDetailPage_init ''B''), pages = 2,
             inflight = [\<lparr>req_page = 1, req_claim = ''A''\<rparr>]\<rparr>
   \<and> app_step (Arrive 0 (FetchResponse 200 (Inr (empty_object\<lparr>verdict := Some ''APPROVED''\<rparr>))))
        \<lparr>current = Detail 2 (ClaimDetailPage_init ''B''), pages = 2,
         inflight = [\<lparr>req_page = 1, req_claim = ''A''\<rparr>]\<rparr>
     = Some \<lparr>current = Detail 2 (ClaimDetailPage_init ''B''), pages = 2, inflight = []\<rparr>
   \<and> verification_column (ClaimDetailPage_init ''B'') = [ReadyToAudit]"
proof -
  let ?s = "\<lparr>current = Detail 2 (ClaimDetailPage_init ''B''), pages = 2,
             inflight = [\<lparr>req_page = 1, req_claim = ''A''\<rparr>]\<rparr>"
  let ?out = "FetchResponse 200 (Inr (empty_object\<lparr>verdict := Some ''APPROVED''\<rparr>))"
  have r: "app_run [OpenClaim ''A'', RunVerification, Return, OpenClaim ''B''] app_init = Some ?s"
    by (simp add: app_init_def ClaimDetailPage_init_def verification_column_def truthy_def
        runAudit_start_def numeral_2_eq_2)
  have n: "0 < length (inflight ?s)"
    by simp
  have c: "current ?s = Detail 2 (ClaimDetailPage_init ''B'')"
    by simp
  have d: "req_claim (inflight ?s ! 0) \<noteq> id_param (ClaimDetailPage_init ''B'')"
    by (simp add: ClaimDetailPage_init_def)
  have k: "app_step (Arrive 0 ?out) ?s
             = Some (?s\<lparr>inflight := take 0 (inflight ?s) @ drop (Suc 0) (inflight ?s)\<rparr>)"
    using late_response_not_shown_under_other_claim [OF r n c, THEN conjunct1] d
    by (rule mp)
  have v: "verification_column (ClaimDetailPage_init ''B'') = [ReadyToAudit]"
    by (simp add: ClaimDetailPage_init_def verification_column_def truthy_def)
  from r k v show ?thesis by simp
qed

text \<open>
  C9. In every configuration the events reach from a freshly opened page the column shows
  exactly one panel (ready, processing, error or result); at most one of auditing, error
  and result holds; and a response selects exactly one of the three result variants, which
  differ in their first block.
\<close>

theorem presentation_states_exclusive:
  assumes "run es (ClaimDetailPage_init i, 0) = Some (st, n)"
  shows "length (verification_column st) = 1
   \<and> (verification_column st = [ReadyToAudit] \<or> verification_column st = [Processing]
      \<or> (\<exists>m. verification_column st = [ErrorBox m])
      \<or> (\<exists>a. audit st = Some a \<and> verification_column st = [Results (results a)]))
   \<and> \<not> (auditing st \<and> auditError st \<noteq> None)
   \<and> \<not> (auditing st \<and> audit st \<noteq> None)
   \<and> \<not> (auditError st \<noteq> None \<and> audit st \<noteq> None)
   \<and> ((audit_variant a = PipelineWarningError \<and> (\<exists>s m bs. results a = StatusBox s m # bs))
      \<or> (audit_variant a = RawFallback \<and> (\<exists>t. results a = [RawOutput t]))
      \<or> (audit_variant a = StructuredVerdict
          \<and> (\<exists>v f r p bs. results a = VerdictBox v f r p # bs)))"
proof -
  have inv: "audit_inv (st, n)"
    using audit_inv_run [OF audit_inv_init assms] .
  note col = column_of_inv [OF inv]
  have 1: "length (verification_column st) = 1"
    unfolding col by (simp split: option.splits)
  have 2: "verification_column st = [ReadyToAudit] \<or> verification_column st = [Processing]
      \<or> (\<exists>m. verification_column st = [ErrorBox m])
      \<or> (\<exists>a. audit st = Some a \<and> verification_column st = [Results (results a)])"
    unfolding col by (cases "audit st") simp_all
  have 3: "\<not> (auditing st \<and> auditError st \<noteq> None)" "\<not> (auditing st \<and> audit st \<noteq> None)"
    "\<not> (auditError st \<noteq> None \<and> audit st \<noteq> None)"
    using inv by (auto simp: audit_inv_def)
  show ?thesis
    by (intro conjI) (rule 1 2 3 results_shape)+
qed

lemma show_nat_500: "show_nat 500 = ''500''"
  by code_simp

theorem presentation_states_exclusive_witness:
  "run [Click, Settle (FetchResponse 500 (Inl OtherValue))] (ClaimDetailPage_init ''7'', 0)
     = Some (\<lparr>id_param = ''7'', audit = None, auditing = False,
              auditError = Some ''Verification failed (500)''\<rparr>, 0)
   \<and> length (verification_column \<lparr>id_param = ''7'', audit = None, auditing = False,
              auditError = Some ''Verification failed (500)''\<rparr>) = 1"
proof -
  have r: "run [Click, Settle (FetchResponse 500 (Inl OtherValue))] (ClaimDetailPage_init ''7'', 0)
     = Some (\<lparr>id_param = ''7'', audit = None, auditing = False,
              auditError = Some ''Verification failed (500)''\<rparr>, 0)"
    by (simp add: ClaimDetailPage_init_def verification_column_def truthy_def runAudit_start_def
        runAudit_finish_def res_ok_def catch_message_def show_nat_500)
  from presentation_states_exclusive [OF r, THEN conjunct1] r show ?thesis
    by (rule_tac conjI)
qed

section \<open>Properties of the worklist filter\<close>

lemma includes_str_iff: "includes_str s q \<longleftrightarrow> (\<exists>u w. s = u @ q @ w)"
proof (induction s)
  case Nil
  then show ?case by auto
next
  case (Cons c cs)
  show ?case
  proof
    assume "includes_str (c # cs) q"
    then consider "startsWith (c # cs) q" | "includes_str cs q" by auto
    then show "\<exists>u w. c # cs = u @ q @ w"
    proof cases
      case 1
      then obtain r where "c # cs = q @ r" by (auto simp: startsWith_iff)
      then have "c # cs = [] @ q @ r" by simp
      then show ?thesis by blast
    next
      case 2
      with Cons.IH obtain u w where "cs = u @ q @ w" by blast
      then have "c # cs = (c # u) @ q @ w" by simp
      then show ?thesis by blast
    qed
  next
    assume "\<exists>u w. c # cs = u @ q @ w"
    then obtain u w where e: "c # cs = u @ q @ w" by blast
    show "includes_str (c # cs) q"
    proof (cases u)
      case Nil
      with e have "startsWith (c # cs) q" by (auto simp: startsWith_iff)
      then show ?thesis by simp
    next
      case (Cons d u')
      with e have "cs = u' @ q @ w" by simp
      with Cons.IH have "includes_str cs q" by blast
      then show ?thesis by simp
    qed
  qed
qed

lemma trim_whitespace_only:
  assumes "\<forall>c\<in>set q. is_space c"
  shows "trim q = []"
proof -
  from assms have d: "dropWhile is_space q = []" by simp
  show ?thesis unfolding trim_def d by simp
qed

lemma trim_empty_iff: "trim q = [] \<longleftrightarrow> (\<forall>c\<in>set q. is_space c)"
proof
  assume t: "trim q = []"
  show "\<forall>c\<in>set q. is_space c"
  proof (rule ccontr)
    assume "\<not> (\<forall>c\<in>set q. is_space c)"
    then have n: "dropWhile is_space q \<noteq> []" by simp
    then have "\<not> is_space (hd (dropWhile is_space q))" by (rule hd_dropWhile)
    moreover from n have "hd (dropWhile is_space q) \<in> set (rev (dropWhile is_space q))"
      by simp
    ultimately have "dropWhile is_space (rev (dropWhile is_space q)) \<noteq> []"
      by (auto simp: dropWhile_eq_Nil_conv)
    with t show False by (simp add: trim_def)
  qed
qed (rule trim_whitespace_only)

lemma ascii_lower_space: "is_space c \<Longrightarrow> ascii_lower c = c"
  by (auto simp: is_space_def ascii_lower_def Let_def)

lemma ascii_toLowerCase_space:
  "\<forall>c\<in>set s. is_space c \<Longrightarrow> ascii_toLowerCase s = s"
  by (induction s) (simp_all add: ascii_toLowerCase_def ascii_lower_space)

lemma filteredClaims_filter:
  assumes ws: "\<forall>s. (\<forall>c\<in>set s. is_space c) \<longrightarrow> toLowerCase s = s"
  shows "filteredClaims toLowerCase L q =
     filter (\<lambda>c. trim (toLowerCase q) = []
               \<or> (\<exists>u w. toLowerCase (patient_id c) = u @ trim (toLowerCase q) @ w)
               \<or> (\<exists>p. payer_name c = Some p
                     \<and> (\<exists>u w. toLowerCase p = u @ trim (toLowerCase q) @ w))) L"
proof (cases "trim (toLowerCase q) = []")
  case True
  then show ?thesis by (simp add: filteredClaims_def)
next
  case False
  have e: "toLowerCase [] = []"
    using ws by simp
  have "(case payer_name c of None \<Rightarrow> False
          | Some p \<Rightarrow> p \<noteq> [] \<and> includes_str (toLowerCase p) (trim (toLowerCase q)))
        \<longleftrightarrow> (\<exists>p. payer_name c = Some p
                     \<and> (\<exists>u w. toLowerCase p = u @ trim (toLowerCase q) @ w))" for c :: Claim
  proof (cases "payer_name c")
    case None
    then show ?thesis by simp
  next
    case (Some p)
    have "p \<noteq> []" if "toLowerCase p = u @ trim (toLowerCase q) @ w" for u w
      using that False e by auto
    with Some show ?thesis by (auto simp: includes_str_iff)
  qed
  with False show ?thesis
    by (simp add: filteredClaims_def Let_def includes_str_iff)
qed

lemma filteredClaims_subseq: "subseq (filteredClaims toLowerCase L q) L"
  by (simp add: filteredClaims_def Let_def)

lemma filteredClaims_whitespace:
  assumes ws: "\<forall>s. (\<forall>c\<in>set s. is_space c) \<longrightarrow> toLowerCase s = s"
    and q: "\<forall>c\<in>set q. is_space c"
  shows "filteredClaims toLowerCase L q = L"
proof -
  from ws q have "toLowerCase q = q" by blast
  with q have "trim (toLowerCase q) = []"
    by (simp add: trim_whitespace_only)
  then show ?thesis by (simp add: filteredClaims_def)
qed

lemma filteredClaims_single:
  "c \<in> set (filteredClaims toLowerCase [c] q) \<longleftrightarrow>
     (trim (toLowerCase q) = []
      \<or> includes_str (toLowerCase (patient_id c)) (trim (toLowerCase q))
      \<or> (case payer_name c of None \<Rightarrow> False
          | Some p \<Rightarrow> p \<noteq> [] \<and> includes_str (toLowerCase p) (trim (toLowerCase q))))"
  by (simp add: filteredClaims_def Let_def)

text \<open>
  C2. For every case mapping that leaves strings of white space as they are, as the
  runtime's does: the filter keeps, in the order of the list, exactly the claims whose
  lower-cased \<open>patient_id\<close>, or whose lower-cased \<open>payer_name\<close> when there is one, contains
  the lower-cased and trimmed query; for an empty or white-space query it returns the list
  unchanged; for the empty list it returns the empty list; and two claims with the same
  \<open>patient_id\<close> and \<open>payer_name\<close> are kept or dropped together, whatever their other fields.
\<close>

theorem worklist_filter:
  assumes ws: "\<forall>s. (\<forall>c\<in>set s. is_space c) \<longrightarrow> toLowerCase s = s"
  shows "filteredClaims toLowerCase L q =
     filter (\<lambda>c. trim (toLowerCase q) = []
               \<or> (\<exists>u w. toLowerCase (patient_id c) = u @ trim (toLowerCase q) @ w)
               \<or> (\<exists>p. payer_name c = Some p
                     \<and> (\<exists>u w. toLowerCase p = u @ trim (toLowerCase q) @ w))) L
   \<and> subseq (filteredClaims toLowerCase L q) L
   \<and> ((\<forall>x\<in>set q. is_space x) \<longrightarrow> filteredClaims toLowerCase L q = L)
   \<and> filteredClaims toLowerCase [] q = []
   \<and> (patient_id c = patient_id c' \<and> payer_name c = payer_name c'
        \<longrightarrow> (c \<in> set (filteredClaims toLowerCase [c] q)
              \<longleftrightarrow> c' \<in> set (filteredClaims toLowerCase [c'] q)))"
proof -
  have 3: "(\<forall>x\<in>set q. is_space x) \<longrightarrow> filteredClaims toLowerCase L q = L"
    using filteredClaims_whitespace [OF ws] by blast
  have 4: "filteredClaims toLowerCase [] q = []"
    by (simp add: filteredClaims_def Let_def)
  have 5: "patient_id c = patient_id c' \<and> payer_name c = payer_name c'
        \<longrightarrow> (c \<in> set (filteredClaims toLowerCase [c] q)
              \<longleftrightarrow> c' \<in> set (filteredClaims toLowerCase [c'] q))"
    by (simp add: filteredClaims_single)
  have 1: "filteredClaims toLowerCase L q =
     filter (\<lambda>c. trim (toLowerCase q) = []
               \<or> (\<exists>u w. toLowerCase (patient_id c) = u @ trim (toLowerCase q) @ w)
               \<or> (\<exists>p. payer_name c = Some p
                     \<and> (\<exists>u w. toLowerCase p = u @ trim (toLowerCase q) @ w))) L"
    by (rule filteredClaims_filter [OF ws])
  have 2: "subseq (filteredClaims toLowerCase L q) L"
    by (rule filteredClaims_subseq)
  from 1 2 3 4 5 show ?thesis
    by (intro conjI)
qed

lemma lower_P1: "ascii_toLowerCase [80, 49] = [112, 49]"
  by (simp add: ascii_toLowerCase_def ascii_lower_def)

lemma lower_P2: "ascii_toLowerCase [80, 50] = [112, 50]"
  by (simp add: ascii_toLowerCase_def ascii_lower_def)

lemma lower_Acme: "ascii_toLowerCase [65, 99, 109, 101] = [97, 99, 109, 101]"
  by (simp add: ascii_toLowerCase_def ascii_lower_def)

lemma lower_Globex:
  "ascii_toLowerCase [71, 108, 111, 98, 101, 120] = [103, 108, 111, 98, 101, 120]"
  by (simp add: ascii_toLowerCase_def ascii_lower_def)

lemma query_p1: "trim (ascii_toLowerCase [32, 112, 49, 160]) = [112, 49]"
  by (simp add: ascii_toLowerCase_def ascii_lower_def trim_def is_space_def)

lemma query_spaces: "\<forall>x\<in>set [32, 160, 8232 :: code_unit]. is_space x"
  by (simp add: is_space_def)

lemma filter_example: "filter
      (\<lambda>c. trim (ascii_toLowerCase [32, 112, 49, 160]) = [] \<or>
           includes_str (ascii_toLowerCase (patient_id c))
            (trim (ascii_toLowerCase [32, 112, 49, 160])) \<or>
           (\<exists>p. payer_name c = Some p \<and>
                includes_str (ascii_toLowerCase p)
                 (trim (ascii_toLowerCase [32, 112, 49, 160]))))
      [\<lparr>id_claim = 1, patient_id = [80, 49],
          payer_name = Some [65, 99, 109, 101], date_of_service = None,
          claim_amount = None, status_claim = [79, 75]\<rparr>,
       \<lparr>id_claim = 2, patient_id = [80, 50],
          payer_name = Some [71, 108, 111, 98, 101, 120],
          date_of_service = None, claim_amount = None,
          status_claim = [79, 75]\<rparr>] =
     [\<lparr>id_claim = 1, patient_id = [80, 49],
         payer_name = Some [65, 99, 109, 101], date_of_service = None,
         claim_amount = None, status_claim = [79, 75]\<rparr>]"
  apply (simp only: query_p1)
  apply (simp only: filter.simps)
  apply (simp add: lower_P1 lower_P2 lower_Acme lower_Globex startsWith_def)
  done

text \<open>
  An instance: the list is \<open>P1\<close>/\<open>Acme\<close> and \<open>P2\<close>/\<open>Globex\<close>. The query \<open>p1\<close> between a
  space and a no-break space keeps the first claim alone, across case; the query of a
  space, a no-break space and a line separator keeps the list; a claim that differs from
  the first in every other field is kept with it.
\<close>

theorem worklist_filter_witness:
  "filteredClaims ascii_toLowerCase
     [\<lparr>id_claim = 1, patient_id = [80, 49], payer_name = Some [65, 99, 109, 101],
       date_of_service = None, claim_amount = None, status_claim = [79, 75]\<rparr>,
      \<lparr>id_claim = 2, patient_id = [80, 50], payer_name = Some [71, 108, 111, 98, 101, 120],
       date_of_service = None, claim_amount = None, status_claim = [79, 75]\<rparr>]
     [32, 112, 49, 160]
   = [\<lparr>id_claim = 1, patient_id = [80, 49], payer_name = Some [65, 99, 109, 101],
       date_of_service = None, claim_amount = None, status_claim = [79, 75]\<rparr>]
   \<and> filteredClaims ascii_toLowerCase
     [\<lparr>id_claim = 1, patient_id = [80, 49], payer_name = Some [65, 99, 109, 101],
       date_of_service = None, claim_amount = None, status_claim = [79, 75]\<rparr>,
      \<lparr>id_claim = 2, patient_id = [80, 50], payer_name = Some [71, 108, 111, 98, 101, 120],
       date_of_service = None, claim_amount = None, status_claim = [79, 75]\<rparr>]
     [32, 160, 8232]
   = [\<lparr>id_claim = 1, patient_id = [80, 49], payer_name = Some [65, 99, 109, 101],
       date_of_service = None, claim_amount = None, status_claim = [79, 75]\<rparr>,
      \<lparr>id_claim = 2, patient_id = [80, 50], payer_name = Some [71, 108, 111, 98, 101, 120],
       date_of_service = None, claim_amount = None, status_claim = [79, 75]\<rparr>]
   \<and> (\<lparr>id_claim = 1, patient_id = [80, 49], payer_name = Some [65, 99, 109, 101],
        date_of_service = None, claim_amount = None, status_claim = [79, 75]\<rparr>
        \<in> set (filteredClaims ascii_toLowerCase
                 [\<lparr>id_claim = 1, patient_id = [80, 49], payer_name = Some [65, 99, 109, 101],
                   date_of_service = None, claim_amount = None, status_claim = [79, 75]\<rparr>]
                 [32, 112, 49, 160])
      \<longleftrightarrow> \<lparr>id_claim = 9, patient_id = [80, 49], payer_name = Some [65, 99, 109, 101],
           date_of_service = Some [50], claim_amount = Some 10, status_claim = [78, 79]\<rparr>
        \<in> set (filteredClaims ascii_toLowerCase
                 [\<lparr>id_claim = 9, patient_id = [80, 49], payer_name = Some [65, 99, 109, 101],
                   date_of_service = Some [50], claim_amount = Some 10,
                   status_claim = [78, 79]\<rparr>]
                 [32, 112, 49, 160]))"
proof -
  let ?c1 = "\<lparr>id_claim = 1, patient_id = [80, 49], payer_name = Some [65, 99, 109, 101],
       date_of_service = None, claim_amount = None, status_claim = [79, 75]\<rparr>"
  let ?c2 = "\<lparr>id_claim = 2, patient_id = [80, 50],
       payer_name = Some [71, 108, 111, 98, 101, 120],
       date_of_service = None, claim_amount = None, status_claim = [79, 75]\<rparr>"
  let ?c9 = "\<lparr>id_claim = 9, patient_id = [80, 49], payer_name = Some [65, 99, 109, 101],
       date_of_service = Some [50], claim_amount = Some 10, status_claim = [78, 79]\<rparr>"
  have ws: "\<forall>s. (\<forall>c\<in>set s. is_space c) \<longrightarrow> ascii_toLowerCase s = s"
    by (simp add: ascii_toLowerCase_space)
  note g = worklist_filter [OF ws]
  have f: "patient_id ?c1 = patient_id ?c9 \<and> payer_name ?c1 = payer_name ?c9"
    by simp
  have k0: "filteredClaims ascii_toLowerCase [?c1, ?c2] [32, 112, 49, 160] = [?c1]"
    by (rule trans, rule g [THEN conjunct1], unfold includes_str_iff [symmetric],
        rule filter_example)
  have k1: "filteredClaims ascii_toLowerCase [?c1, ?c2] [32, 160, 8232] = [?c1, ?c2]"
    using g [where L = "[?c1, ?c2]" and q = "[32, 160, 8232]",
        THEN conjunct2, THEN conjunct2, THEN conjunct1] query_spaces
    by (rule mp)
  have k2: "?c1 \<in> set (filteredClaims ascii_toLowerCase [?c1] [32, 112, 49, 160])
        \<longleftrightarrow> ?c9 \<in> set (filteredClaims ascii_toLowerCase [?c9] [32, 112, 49, 160])"
    using g [where q = "[32, 112, 49, 160]" and c = ?c1 and c' = ?c9,
        THEN conjunct2, THEN conjunct2, THEN conjunct2, THEN conjunct2] f
    by (rule mp)
  show ?thesis
    by (intro conjI) (rule k0 k1 k2)+
qed

end
